theory Spec2Isabelle
  imports Main "HOL-Library.Sublist"
begin

section \<open>The fuse table generator \<^verbatim>\<open>build/fuses/build.py\<close>\<close>

text \<open>
  The script reads \<^verbatim>\<open>fuses.json\<close>, checks the schema version, walks the fuses in
  the order of the document and renders two C++ files from two templates by textual
  substitution. The model below follows the script line by line. A Python \<^verbatim>\<open>str\<close> is a
  \<^typ>\<open>string\<close> whose characters are the code points below 256; the case mapping of
  \<^verbatim>\<open>str.title\<close> is the one of the ASCII letters, so fuse identifiers are ASCII text.
  Every exception the script can raise is a value of \<open>error\<close>.
\<close>

subsection \<open>Values of the parsed document, exceptions\<close>

text \<open>
  What \<^verbatim>\<open>json.load\<close> returns for a JSON object: a dictionary in document order whose
  values are JSON values. Numbers with a fraction or an exponent (Python floats) are
  not part of the model.
\<close>

datatype json =
    JNull
  | JBool bool
  | JInt int
  | JStr string
  | JArr "json list"
  | JObj "(string \<times> json) list"

type_synonym dict = "(string \<times> json) list"

datatype error =
    KeyError string
  | TypeError
  | ValueError
  | OverflowError
  | IndexError
  | OSError string
  | UnicodeEncodeError
  | Exception string

text \<open>Python's truth value of a JSON value, as used by \<^verbatim>\<open>"1" if v else "0"\<close>.\<close>

fun truthy :: "json \<Rightarrow> bool" where
  "truthy JNull = False"
| "truthy (JBool b) = b"
| "truthy (JInt i) = (i \<noteq> 0)"
| "truthy (JStr s) = (s \<noteq> [])"
| "truthy (JArr xs) = (xs \<noteq> [])"
| "truthy (JObj kvs) = (kvs \<noteq> [])"

text \<open>\<^verbatim>\<open>d[k]\<close>, \<^verbatim>\<open>del d[k]\<close> and \<^verbatim>\<open>d.keys()\<close> on an insertion-ordered dictionary.\<close>

definition getitem :: "dict \<Rightarrow> string \<Rightarrow> error + json" where
  "getitem d k = (case map_of d k of None \<Rightarrow> Inl (KeyError k) | Some v \<Rightarrow> Inr v)"

definition delitem :: "dict \<Rightarrow> string \<Rightarrow> error + dict" where
  "delitem d k =
     (if k \<in> set (map fst d) then Inr (filter (\<lambda>kv. fst kv \<noteq> k) d) else Inl (KeyError k))"

definition keys :: "dict \<Rightarrow> string list" where
  "keys d = map fst d"

text \<open>
  \<^verbatim>\<open>fuse_version >= pow(2, 8)\<close>: integers compare, \<^verbatim>\<open>bool\<close> is a subclass of
  \<^verbatim>\<open>int\<close>, every other JSON value raises \<^verbatim>\<open>TypeError\<close>.
\<close>

fun ge_int :: "json \<Rightarrow> int \<Rightarrow> error + bool" where
  "ge_int (JInt i) n = Inr (i \<ge> n)"
| "ge_int (JBool b) n = Inr ((if b then 1 else 0) \<ge> n)"
| "ge_int v n = Inl TypeError"

text \<open>
  \<^verbatim>\<open>chr(fuse_version)\<close>. The argument is converted to a C \<^verbatim>\<open>int\<close>: outside
  \<open>-2\<^sup>3\<^sup>1 \<le> i < 2\<^sup>3\<^sup>1\<close> Python raises \<^verbatim>\<open>OverflowError\<close>. Inside, it raises
  \<^verbatim>\<open>ValueError\<close> unless \<open>0 \<le> i < 0x110000\<close>. The script reaches the call only with
  \<open>i < 256\<close>, which is the range a \<^typ>\<open>char\<close> holds; the code points from 256 on, which
  a \<^typ>\<open>char\<close> cannot hold, are never asked for.
\<close>

fun chr :: "json \<Rightarrow> error + char" where
  "chr (JInt i) =
     (if i < - (2 ^ 31) \<or> 2 ^ 31 \<le> i then Inl OverflowError
      else if 0 \<le> i \<and> i < 256 then Inr (char_of i)
      else Inl ValueError)"
| "chr (JBool b) = Inr (char_of (if b then 1 else 0 :: int))"
| "chr v = Inl TypeError"

subsection \<open>String methods\<close>

text \<open>
  \<^verbatim>\<open>s.replace(old, new)\<close>: every occurrence of \<open>old\<close>, found from left to right
  without overlap, becomes \<open>new\<close>; the inserted text is not scanned again. With an empty
  \<open>old\<close> Python inserts \<open>new\<close> before every character and at the end.
\<close>

function replace_nonempty :: "string \<Rightarrow> string \<Rightarrow> string \<Rightarrow> string" where
  "replace_nonempty old new [] = []"
| "replace_nonempty old new (c # cs) =
     (if old \<noteq> [] \<and> prefix old (c # cs)
      then new @ replace_nonempty old new (drop (length old) (c # cs))
      else c # replace_nonempty old new cs)"
  by pat_completeness auto
termination
  by (relation "measure (\<lambda>(old, new, s). length s)") auto

definition str_replace :: "string \<Rightarrow> string \<Rightarrow> string \<Rightarrow> string" where
  "str_replace s old new =
     (if old = [] then new @ concat (map (\<lambda>c. c # new) s) else replace_nonempty old new s)"

text \<open>\<^verbatim>\<open>s.split(sep)\<close> for a separator of one character.\<close>

fun str_split :: "char \<Rightarrow> string \<Rightarrow> string list" where
  "str_split sep [] = [[]]"
| "str_split sep (c # cs) =
     (if c = sep then [] # str_split sep cs
      else (case str_split sep cs of [] \<Rightarrow> [[c]] | w # ws \<Rightarrow> (c # w) # ws))"

text \<open>\<^verbatim>\<open>sep.join(words)\<close>\<close>

fun str_join :: "string \<Rightarrow> string list \<Rightarrow> string" where
  "str_join sep [] = []"
| "str_join sep [w] = w"
| "str_join sep (w # ws) = w @ sep @ str_join sep ws"

text \<open>
  \<^verbatim>\<open>s.title()\<close>: a cased character (a letter) is put in upper case when the character
  before it is not cased, and in lower case when it is.
\<close>

definition is_upper :: "char \<Rightarrow> bool" where
  "is_upper c = (65 \<le> (of_char c :: nat) \<and> (of_char c :: nat) \<le> 90)"

definition is_lower :: "char \<Rightarrow> bool" where
  "is_lower c = (97 \<le> (of_char c :: nat) \<and> (of_char c :: nat) \<le> 122)"

definition is_cased :: "char \<Rightarrow> bool" where
  "is_cased c = (is_upper c \<or> is_lower c)"

definition to_upper :: "char \<Rightarrow> char" where
  "to_upper c = (if is_lower c then char_of ((of_char c :: nat) - 32) else c)"

definition to_lower :: "char \<Rightarrow> char" where
  "to_lower c = (if is_upper c then char_of ((of_char c :: nat) + 32) else c)"

fun title_from :: "bool \<Rightarrow> string \<Rightarrow> string" where
  "title_from previous_is_cased [] = []"
| "title_from previous_is_cased (c # cs) =
     (if previous_is_cased then to_lower c else to_upper c) # title_from (is_cased c) cs"

definition str_title :: "string \<Rightarrow> string" where
  "str_title s = title_from False s"

text \<open>
  \<^verbatim>\<open>s.strip()\<close>: leading and trailing white space goes. Below 256 Python's white space
  is 0x09 to 0x0D, 0x1C to 0x20, 0x85 and 0xA0.
\<close>

definition is_space :: "char \<Rightarrow> bool" where
  "is_space c =
     (let n = (of_char c :: nat)
      in (9 \<le> n \<and> n \<le> 13) \<or> (28 \<le> n \<and> n \<le> 32) \<or> n = 133 \<or> n = 160)"

definition str_strip :: "string \<Rightarrow> string" where
  "str_strip s = rev (dropWhile is_space (rev (dropWhile is_space s)))"

text \<open>\<^verbatim>\<open>str(index)\<close> for a count: the decimal digits, most significant first.\<close>

definition digit_char :: "nat \<Rightarrow> char" where
  "digit_char d = char_of (48 + d)"

fun str_nat :: "nat \<Rightarrow> string" where
  "str_nat n = (if n < 10 then [digit_char n] else str_nat (n div 10) @ [digit_char (n mod 10)])"

declare str_nat.simps [simp del]

subsection \<open>Constants of the script\<close>

definition SENTINEL :: string where
  \<open>SENTINEL = ''dL7pKGdnNz796PbbjQWNKmHXBZaB9tsX''\<close>

definition TEMPLATE_H :: string where
  \<open>TEMPLATE_H =
     ''\<newline>'' @
     ''#ifndef ELECTRON_FUSES_H_\<newline>'' @
     ''#define ELECTRON_FUSES_H_\<newline>'' @
     ''\<newline>'' @
     ''namespace electron {\<newline>'' @
     ''\<newline>'' @
     ''namespace fuses {\<newline>'' @
     ''\<newline>'' @
     ''extern const volatile char kFuseWire[];\<newline>'' @
     ''\<newline>'' @
     ''{getters}\<newline>'' @
     ''\<newline>'' @
     ''}  // namespace fuses\<newline>'' @
     ''\<newline>'' @
     ''}  // namespace electron\<newline>'' @
     ''\<newline>'' @
     ''#endif  // ELECTRON_FUSES_H_\<newline>''\<close>

definition TEMPLATE_CC :: string where
  \<open>TEMPLATE_CC =
     ''\<newline>'' @
     ''#include "electron/fuses.h"\<newline>'' @
     ''\<newline>'' @
     ''#include <iostream>\<newline>'' @
     ''\<newline>'' @
     ''namespace electron {\<newline>'' @
     ''\<newline>'' @
     ''namespace fuses {\<newline>'' @
     ''\<newline>'' @
     ''const volatile char kFuseWire[] = "{sentinel}{fuse_version}{initial_config}";\<newline>'' @
     ''\<newline>'' @
     ''{getters}\<newline>'' @
     ''\<newline>'' @
     ''}\<newline>'' @
     ''\<newline>'' @
     ''}\<newline>''\<close>

text \<open>The two literals the loop substitutes into, one per output file.\<close>

definition GETTER_H :: string where
  \<open>GETTER_H = ''bool Is{name}Enabled();\<newline>''\<close>

definition GETTER_CC :: string where
  \<open>GETTER_CC =
     ''\<newline>'' @
     ''__attribute__((__visibility__("default"))) bool Is{name}Enabled() {\<newline>'' @
     ''  return kFuseWire[{index}] == '1';\<newline>'' @
     ''}\<newline>''\<close>

subsection \<open>The loop over the fuses\<close>

record loop_state =
  initial_config :: string
  getters_h :: string
  getters_cc :: string
  index :: nat

text \<open>\<^verbatim>\<open>''.join(word.title() for word in fuse.split('_'))\<close>\<close>

definition accessor_name :: "string \<Rightarrow> string" where
  "accessor_name fuse = str_join [] (map str_title (str_split (CHR ''_'') fuse))"

definition loop_body :: "dict \<Rightarrow> string \<Rightarrow> loop_state \<Rightarrow> error + loop_state" where
  "loop_body fuse_defaults fuse st =
     (let index' = index st + 1 in
      case getitem fuse_defaults fuse of
        Inl e \<Rightarrow> Inl e
      | Inr v \<Rightarrow>
          let name = accessor_name fuse in
          Inr \<lparr> initial_config = initial_config st @ (if truthy v then ''1'' else ''0''),
                getters_h = getters_h st @ str_replace GETTER_H ''{name}'' name,
                getters_cc = getters_cc st @
                  str_replace (str_replace GETTER_CC ''{name}'' name) ''{index}'' (str_nat index'),
                index = index' \<rparr>)"

fun loop :: "dict \<Rightarrow> string list \<Rightarrow> loop_state \<Rightarrow> error + loop_state" where
  "loop fuse_defaults [] st = Inr st"
| "loop fuse_defaults (fuse # fuses) st =
     (case loop_body fuse_defaults fuse st of
        Inl e \<Rightarrow> Inl e
      | Inr st' \<Rightarrow> loop fuse_defaults fuses st')"

definition initial_state :: loop_state where
  "initial_state =
     \<lparr> initial_config = [], getters_h = [], getters_cc = [], index = length SENTINEL \<rparr>"

subsection \<open>Rendering and writing\<close>

text \<open>
  Lines 55 to 76 of the script: the check of the version, the loop and the two
  substitutions into the templates, from the version and the dictionary of the fuses to
  the texts of the declarations file and of the definitions file.
\<close>

definition render :: "json \<Rightarrow> dict \<Rightarrow> error + (string \<times> string)" where
  "render fuse_version fuse_defaults =
     (case ge_int fuse_version (2 ^ 8) of Inl e \<Rightarrow> Inl e | Inr too_big \<Rightarrow>
      if too_big then Inl (Exception ''Fuse version can not exceed one byte in size'')
      else
      case loop fuse_defaults (keys fuse_defaults) initial_state of Inl e \<Rightarrow> Inl e | Inr st \<Rightarrow>
      let header = str_replace TEMPLATE_H ''{getters}'' (str_strip (getters_h st)) in
      case chr fuse_version of Inl e \<Rightarrow> Inl e | Inr version_char \<Rightarrow>
      let impl =
        str_replace
          (str_replace
            (str_replace
              (str_replace TEMPLATE_CC ''{sentinel}'' SENTINEL)
              ''{fuse_version}'' [version_char])
            ''{initial_config}'' (initial_config st))
          ''{getters}'' (str_strip (getters_cc st))
      in Inr (header, impl))"

text \<open>
  Lines 51 to 76: the version is read and the two metadata keys are deleted from the
  parsed document, then the rest runs on what is left.
\<close>

definition generate :: "dict \<Rightarrow> error + (string \<times> string)" where
  "generate doc =
     (case getitem doc ''_version'' of Inl e \<Rightarrow> Inl e | Inr fuse_version \<Rightarrow>
      case delitem doc ''_version'' of Inl e \<Rightarrow> Inl e | Inr doc1 \<Rightarrow>
      case delitem doc1 ''_comment'' of Inl e \<Rightarrow> Inl e | Inr fuse_defaults \<Rightarrow>
      render fuse_version fuse_defaults)"

text \<open>
  The file system holds, for every file, its bytes; a byte is a \<^typ>\<open>char\<close>. The
  environment of a run says what the operating system and the locale do: the paths that
  cannot be opened for writing (a directory without permission, a read-only file), the
  encoding of the locale, and for a path how many bytes it takes before the disk is
  full. The encoding maps a character of the text to the bytes it is stored as, or to
  nothing when it cannot store the character; the translation of the line break that
  text mode does on some systems is part of this map.
\<close>

type_synonym bytes = "char list"

type_synonym files = "string \<rightharpoonup> bytes"

record environment =
  read_only :: "string set"
  codec :: "char \<Rightarrow> bytes option"
  limit :: "string \<rightharpoonup> nat"

text \<open>
  \<^verbatim>\<open>open(path, 'w')\<close>: the file is created, or emptied when it exists; a path that
  cannot be opened raises \<^verbatim>\<open>OSError\<close> and nothing changes.
\<close>

definition open_w :: "environment \<Rightarrow> string \<Rightarrow> files \<Rightarrow> error + files" where
  "open_w env path fs =
     (if path \<in> read_only env then Inl (OSError path) else Inr (fs(path \<mapsto> [])))"

text \<open>
  The text is encoded as a whole before a byte is written: a character the encoding
  cannot store raises \<^verbatim>\<open>UnicodeEncodeError\<close>.
\<close>

fun encode :: "(char \<Rightarrow> bytes option) \<Rightarrow> string \<Rightarrow> error + bytes" where
  "encode cd [] = Inr []"
| "encode cd (c # cs) =
     (case cd c of
        None \<Rightarrow> Inl UnicodeEncodeError
      | Some bs \<Rightarrow> (case encode cd cs of Inl e \<Rightarrow> Inl e | Inr rest \<Rightarrow> Inr (bs @ rest)))"

text \<open>
  \<^verbatim>\<open>f.write(text)\<close> and the \<^verbatim>\<open>close\<close> at the end of the \<^verbatim>\<open>with\<close> block, on a file
  that \<^verbatim>\<open>open\<close> has just emptied. When the text cannot be encoded the file stays
  empty; when the disk is full the bytes that fitted stay in the file and \<^verbatim>\<open>OSError\<close>
  is raised.
\<close>

definition f_write :: "environment \<Rightarrow> string \<Rightarrow> string \<Rightarrow> files \<Rightarrow> error option \<times> files" where
  "f_write env path text fs =
     (case encode (codec env) text of
        Inl e \<Rightarrow> (Some e, fs)
      | Inr bs \<Rightarrow>
          (case limit env path of
             None \<Rightarrow> (None, fs(path \<mapsto> bs))
           | Some n \<Rightarrow>
               if length bs \<le> n then (None, fs(path \<mapsto> bs))
               else (Some (OSError path), fs(path \<mapsto> take n bs))))"

text \<open>\<^verbatim>\<open>with open(path, 'w') as f: f.write(text)\<close>\<close>

definition write_file :: "environment \<Rightarrow> string \<Rightarrow> string \<Rightarrow> files \<Rightarrow> error option \<times> files" where
  "write_file env path text fs =
     (case open_w env path fs of
        Inl e \<Rightarrow> (Some e, fs)
      | Inr fs1 \<Rightarrow> f_write env path text fs1)"

text \<open>\<^verbatim>\<open>sys.argv[i]\<close> for \<open>i \<ge> 0\<close>.\<close>

definition argv_at :: "string list \<Rightarrow> nat \<Rightarrow> error + string" where
  "argv_at argv i = (if i < length argv then Inr (argv ! i) else Inl IndexError)"

text \<open>
  The whole script on a parsed document: the exception that ends it, if any, and the
  file system it leaves.
\<close>

definition main :: "environment \<Rightarrow> string list \<Rightarrow> dict \<Rightarrow> files \<Rightarrow> error option \<times> files" where
  "main env argv doc fs =
     (case generate doc of Inl e \<Rightarrow> (Some e, fs) | Inr (header, impl) \<Rightarrow>
      case argv_at argv 1 of Inl e \<Rightarrow> (Some e, fs) | Inr path_h \<Rightarrow>
      case write_file env path_h header fs of
        (Some e, fs1) \<Rightarrow> (Some e, fs1)
      | (None, fs1) \<Rightarrow>
      case argv_at argv 2 of Inl e \<Rightarrow> (Some e, fs1) | Inr path_cc \<Rightarrow>
      write_file env path_cc impl fs1)"

text \<open>
  Three encodings a locale can have, and the environment of the examples: UTF-8, every
  path can be written, no limit.
\<close>

definition utf8_codec :: "char \<Rightarrow> bytes option" where
  "utf8_codec c =
     (let n = (of_char c :: nat)
      in if n < 128 then Some [c]
         else Some [char_of (192 + n div 64), char_of (128 + n mod 64)])"

definition latin1_codec :: "char \<Rightarrow> bytes option" where
  "latin1_codec c = Some [c]"

definition ascii_codec :: "char \<Rightarrow> bytes option" where
  "ascii_codec c = (if (of_char c :: nat) < 128 then Some [c] else None)"

definition utf8_environment :: environment where
  "utf8_environment = \<lparr> read_only = {}, codec = utf8_codec, limit = Map.empty \<rparr>"

text \<open>
  The environment lets the script write this text to this path: the path can be opened,
  the text can be encoded and its bytes fit.
\<close>

definition can_write :: "environment \<Rightarrow> string \<Rightarrow> string \<Rightarrow> bool" where
  "can_write env path text =
     (path \<notin> read_only env \<and>
      (case encode (codec env) text of
         Inl e \<Rightarrow> False
       | Inr bs \<Rightarrow> (case limit env path of None \<Rightarrow> True | Some n \<Rightarrow> length bs \<le> n)))"

text \<open>
  An encoding that stores every ASCII character other than the line break as the byte
  of the same value, as UTF-8, Latin-1, ASCII and the Windows code pages do.
\<close>

definition ascii_transparent :: "(char \<Rightarrow> bytes option) \<Rightarrow> bool" where
  "ascii_transparent cd =
     (\<forall>c. (of_char c :: nat) < 128 \<and> c \<noteq> CHR 0x0A \<longrightarrow> cd c = Some [c])"

subsection \<open>The parts of the templates and of the generated texts\<close>

text \<open>
  The fixed text of each template around its placeholders, the text one fuse contributes
  to each file once its placeholders are filled, and the fuses of a document: what is
  left of it after the two \<^verbatim>\<open>del\<close> statements. These name the pieces the theorems
  speak about; the lemmas below tie each of them to the script.
\<close>

definition CC_HEAD :: string where
  \<open>CC_HEAD =
     ''\<newline>'' @
     ''#include "electron/fuses.h"\<newline>'' @
     ''\<newline>'' @
     ''#include <iostream>\<newline>'' @
     ''\<newline>'' @
     ''namespace electron {\<newline>'' @
     ''\<newline>'' @
     ''namespace fuses {\<newline>'' @
     ''\<newline>'' @
     ''const volatile char kFuseWire[] = "''\<close>

definition CC_MID :: string where
  \<open>CC_MID = ''";\<newline>'' @ ''\<newline>''\<close>

definition CC_TAIL :: string where
  \<open>CC_TAIL = ''\<newline>'' @ ''\<newline>'' @ ''}\<newline>'' @ ''\<newline>'' @ ''}\<newline>''\<close>

definition H_HEAD :: string where
  \<open>H_HEAD =
     ''\<newline>'' @
     ''#ifndef ELECTRON_FUSES_H_\<newline>'' @
     ''#define ELECTRON_FUSES_H_\<newline>'' @
     ''\<newline>'' @
     ''namespace electron {\<newline>'' @
     ''\<newline>'' @
     ''namespace fuses {\<newline>'' @
     ''\<newline>'' @
     ''extern const volatile char kFuseWire[];\<newline>'' @
     ''\<newline>''\<close>

definition H_TAIL :: string where
  \<open>H_TAIL =
     ''\<newline>'' @
     ''\<newline>'' @
     ''}  // namespace fuses\<newline>'' @
     ''\<newline>'' @
     ''}  // namespace electron\<newline>'' @
     ''\<newline>'' @
     ''#endif  // ELECTRON_FUSES_H_\<newline>''\<close>

definition getter_h_text :: "string \<Rightarrow> string" where
  \<open>getter_h_text name = ''bool Is'' @ name @ ''Enabled();\<newline>''\<close>

definition getter_cc_text :: "string \<Rightarrow> nat \<Rightarrow> string" where
  \<open>getter_cc_text name i =
     ''\<newline>__attribute__((__visibility__("default"))) bool Is'' @ name @
     ''Enabled() {\<newline>  return kFuseWire['' @ str_nat i @ ''] == '1';\<newline>}\<newline>''\<close>

definition fuse_entries :: "dict \<Rightarrow> dict" where
  "fuse_entries doc =
     filter (\<lambda>kv. fst kv \<noteq> ''_comment'') (filter (\<lambda>kv. fst kv \<noteq> ''_version'') doc)"

definition bit_char :: "json \<Rightarrow> char" where
  "bit_char v = (if truthy v then CHR ''1'' else CHR ''0'')"

definition wire :: "char \<Rightarrow> dict \<Rightarrow> string" where
  "wire c doc =
     SENTINEL @ [c] @
     map (\<lambda>fuse. bit_char (the (map_of (fuse_entries doc) fuse))) (keys (fuse_entries doc))"

definition generated_header :: "dict \<Rightarrow> string" where
  "generated_header doc =
     H_HEAD @
     str_strip (concat (map (\<lambda>fuse. getter_h_text (accessor_name fuse)) (keys (fuse_entries doc)))) @
     H_TAIL"

definition generated_impl :: "char \<Rightarrow> dict \<Rightarrow> string" where
  "generated_impl c doc =
     CC_HEAD @ wire c doc @ CC_MID @
     str_strip (concat (map (\<lambda>(i, fuse). getter_cc_text (accessor_name fuse) i)
                  (enumerate (length SENTINEL + 1) (keys (fuse_entries doc))))) @
     CC_TAIL"

fun lower_after_cased :: "bool \<Rightarrow> string \<Rightarrow> bool" where
  "lower_after_cased b [] = True"
| "lower_after_cased b (c # cs) = ((b \<or> \<not> is_lower c) \<and> lower_after_cased (is_cased c) cs)"

text \<open>The example schema of the specification.\<close>

definition example_schema :: dict where
  "example_schema =
     [(''_version'', JInt 3), (''_comment'', JStr ''x''),
      (''enable_widget'', JBool True), (''enable_gadget'', JBool False)]"

subsection \<open>Reading a string literal of the generated file\<close>

text \<open>
  How a C compiler, and with it the tool that patches the binary, reads a string
  literal: given the text after the opening quote, the characters the literal stands for
  up to the closing quote. A backslash starts an escape sequence; the end of the line
  (line feed or carriage return) or of the text before the closing quote is an error.
  The simple and the octal escape sequences are read; hexadecimal and universal
  character names are outside the model and count as errors.
\<close>

definition is_octal :: "char \<Rightarrow> bool" where
  "is_octal c = (48 \<le> (of_char c :: nat) \<and> (of_char c :: nat) \<le> 55)"

definition octal_value :: "string \<Rightarrow> nat" where
  "octal_value ds = foldl (\<lambda>n d. 8 * n + ((of_char d :: nat) - 48)) 0 ds"

definition simple_escape :: "char \<Rightarrow> char option" where
  "simple_escape e =
     (if e = CHR ''n'' then Some (CHR 0x0A)
      else if e = CHR ''t'' then Some (CHR 0x09)
      else if e = CHR ''r'' then Some (CHR 0x0D)
      else if e = CHR ''a'' then Some (CHR 0x07)
      else if e = CHR ''b'' then Some (CHR 0x08)
      else if e = CHR ''f'' then Some (CHR 0x0C)
      else if e = CHR ''v'' then Some (CHR 0x0B)
      else if e = CHR 0x5C \<or> e = CHR 0x27 \<or> e = CHR 0x22 \<or> e = CHR ''?'' then Some e
      else None)"

function c_string_literal :: "string \<Rightarrow> string option" where
  "c_string_literal [] = None"
| "c_string_literal (c # cs) =
     (if c = CHR 0x22 then Some []
      else if c = CHR 0x0A \<or> c = CHR 0x0D then None
      else if c = CHR 0x5C then
        (case cs of
           [] \<Rightarrow> None
         | e # rest \<Rightarrow>
             if is_octal e then
               map_option ((#) (char_of (octal_value (takeWhile is_octal (take 3 cs)))))
                 (c_string_literal (drop (length (takeWhile is_octal (take 3 cs))) cs))
             else
               (case simple_escape e of
                  None \<Rightarrow> None
                | Some x \<Rightarrow> map_option ((#) x) (c_string_literal rest)))
      else map_option ((#) c) (c_string_literal cs))"
  by pat_completeness auto
termination
  by (relation "measure length") auto

text \<open>
  The initialiser of \<^verbatim>\<open>kFuseWire\<close> as the compiler reads it from the bytes of the
  definitions file of a document, written in a given encoding: the literal that starts
  after the bytes of the fixed text \<open>CC_HEAD\<close>.
\<close>

definition wire_literal :: "(char \<Rightarrow> bytes option) \<Rightarrow> dict \<Rightarrow> bytes option" where
  "wire_literal cd doc =
     (case generate doc of Inl e \<Rightarrow> None | Inr (header, impl) \<Rightarrow>
      case encode cd impl of Inl e \<Rightarrow> None | Inr file \<Rightarrow>
      case encode cd CC_HEAD of Inl e \<Rightarrow> None | Inr head \<Rightarrow>
      c_string_literal (drop (length head) file))"

subsection \<open>Title case in the words of the specification\<close>







text \<open>The identifiers the model of \<^verbatim>\<open>str.title\<close> is exact for: ASCII text.\<close>

definition is_ascii :: "char \<Rightarrow> bool" where
  "is_ascii c = ((of_char c :: nat) < 128)"

section \<open>Properties of the model\<close>

subsection \<open>Substitution into the templates\<close>

lemma TEMPLATE_CC_parts:
  "TEMPLATE_CC = CC_HEAD @ ''{sentinel}{fuse_version}{initial_config}'' @ CC_MID @ ''{getters}'' @ CC_TAIL"
  by (simp add: TEMPLATE_CC_def CC_HEAD_def CC_MID_def CC_TAIL_def)

lemma replace_skip:
  "old \<noteq> [] \<Longrightarrow> \<forall>x\<in>set xs. x \<noteq> hd old \<Longrightarrow>
   replace_nonempty old new (xs @ ys) = xs @ replace_nonempty old new ys"
proof (induction xs)
  case Nil
  then show ?case by simp
next
  case (Cons x xs)
  from Cons.prems obtain o1 os where old: "old = o1 # os" by (cases old) auto
  with Cons.prems have "x \<noteq> o1" by simp
  then have "\<not> prefix old (x # xs @ ys)" by (simp add: old)
  with Cons show ?case by simp
qed

lemma cc_step1:
  "str_replace TEMPLATE_CC ''{sentinel}'' new =
   CC_HEAD @ new @ ''{fuse_version}{initial_config}'' @ CC_MID @ ''{getters}'' @ CC_TAIL"
  by (simp add: str_replace_def TEMPLATE_CC_def CC_HEAD_def CC_MID_def CC_TAIL_def)

lemma cc_step2:
  "str_replace (CC_HEAD @ SENTINEL @ ''{fuse_version}{initial_config}'' @ CC_MID @ ''{getters}'' @ CC_TAIL)
      ''{fuse_version}'' new =
   CC_HEAD @ SENTINEL @ new @ ''{initial_config}'' @ CC_MID @ ''{getters}'' @ CC_TAIL"
  by (simp add: str_replace_def SENTINEL_def CC_HEAD_def CC_MID_def CC_TAIL_def)

lemma cc_step3:
  "str_replace (CC_HEAD @ SENTINEL @ [c] @ ''{initial_config}'' @ CC_MID @ ''{getters}'' @ CC_TAIL)
      ''{initial_config}'' new =
   CC_HEAD @ SENTINEL @ [c] @ new @ CC_MID @ ''{getters}'' @ CC_TAIL"
  by (simp add: str_replace_def SENTINEL_def CC_HEAD_def CC_MID_def CC_TAIL_def)

lemma TEMPLATE_H_parts: "TEMPLATE_H = H_HEAD @ ''{getters}'' @ H_TAIL"
  by (simp add: TEMPLATE_H_def H_HEAD_def H_TAIL_def)

lemma header_replace: "str_replace TEMPLATE_H ''{getters}'' new = H_HEAD @ new @ H_TAIL"
  by (simp add: str_replace_def TEMPLATE_H_def H_HEAD_def H_TAIL_def)

lemma getter_h_replace: "str_replace GETTER_H ''{name}'' name = getter_h_text name"
  by (simp add: str_replace_def GETTER_H_def getter_h_text_def)

lemma getter_cc_replace_name:
  \<open>str_replace GETTER_CC ''{name}'' name =
   ''\<newline>__attribute__((__visibility__("default"))) bool Is'' @ name @
     ''Enabled() {\<newline>  return kFuseWire[{index}] == '1';\<newline>}\<newline>''\<close>
  by (simp add: str_replace_def GETTER_CC_def)

lemma to_upper_not_lower: "\<not> is_lower (to_upper c)"
  by (auto simp: to_upper_def is_lower_def)

lemma is_cased_to_upper: "is_cased (to_upper c) = is_cased c"
  by (auto simp: to_upper_def is_cased_def is_lower_def is_upper_def)

lemma is_cased_to_lower: "is_cased (to_lower c) = is_cased c"
  by (auto simp: to_lower_def is_cased_def is_lower_def is_upper_def)

lemma lower_after_cased_title: "lower_after_cased b (title_from b s)"
  by (induction s arbitrary: b)
     (simp_all add: to_upper_not_lower is_cased_to_upper is_cased_to_lower)

lemma lower_after_cased_weaken: "lower_after_cased False s \<Longrightarrow> lower_after_cased b s"
  by (cases s) simp_all

lemma lower_after_cased_append:
  "lower_after_cased b xs \<Longrightarrow> lower_after_cased False ys \<Longrightarrow> lower_after_cased b (xs @ ys)"
  by (induction xs arbitrary: b) (simp_all add: lower_after_cased_weaken)

lemma lower_after_cased_concat:
  "\<forall>s\<in>set ss. lower_after_cased False s \<Longrightarrow> lower_after_cased False (concat ss)"
  by (induction ss) (simp_all add: lower_after_cased_append)

lemma str_join_empty: "str_join [] ws = concat ws"
  by (induction ws rule: induct_list012) simp_all

lemma accessor_name_concat:
  "accessor_name fuse = concat (map str_title (str_split (CHR ''_'') fuse))"
  by (simp add: accessor_name_def str_join_empty)

lemma lower_after_cased_accessor_name: "lower_after_cased False (accessor_name fuse)"
  unfolding accessor_name_concat
  by (rule lower_after_cased_concat) (simp add: str_title_def lower_after_cased_title)




lemma replace_nonempty_no_prefix:
  "\<not> prefix old (c # cs) \<Longrightarrow>
   replace_nonempty old new (c # cs) = c # replace_nonempty old new cs"
  by simp

lemma replace_index_in_name:
  "lower_after_cased b name \<Longrightarrow> \<not> prefix ''index}'' rest \<Longrightarrow>
   replace_nonempty ''{index}'' new (name @ rest) = name @ replace_nonempty ''{index}'' new rest"
proof (induction name arbitrary: b)
  case Nil
  then show ?case by simp
next
  case (Cons c cs)
  have no_prefix: "\<not> prefix ''{index}'' (c # cs @ rest)"
  proof (cases cs)
    case Nil
    with Cons.prems show ?thesis by simp
  next
    case (Cons d ds)
    with Cons.prems have "c = CHR ''{'' \<Longrightarrow> d \<noteq> CHR ''i''"
      by (auto simp: is_cased_def is_lower_def is_upper_def)
    with Cons show ?thesis by auto
  qed
  from Cons.prems have "lower_after_cased (is_cased c) cs" by simp
  with Cons.IH Cons.prems
  have "replace_nonempty ''{index}'' new (cs @ rest) = cs @ replace_nonempty ''{index}'' new rest"
    by blast
  with replace_nonempty_no_prefix [OF no_prefix, of new] show ?case by simp
qed

lemma getter_cc_replace:
  "str_replace (str_replace GETTER_CC ''{name}'' (accessor_name fuse)) ''{index}'' (str_nat i) =
   getter_cc_text (accessor_name fuse) i"
proof -
  let ?tail = \<open>''Enabled() {\<newline>  return kFuseWire[{index}] == '1';\<newline>}\<newline>''\<close>
  have name: "replace_nonempty ''{index}'' new (accessor_name fuse @ ?tail) =
              accessor_name fuse @ replace_nonempty ''{index}'' new ?tail" for new
    by (rule replace_index_in_name [OF lower_after_cased_accessor_name]) simp
  show ?thesis
    by (simp add: str_replace_def GETTER_CC_def getter_cc_text_def name)
qed

lemma cc_step4:
  assumes "set bits \<subseteq> {CHR ''0'', CHR ''1''}"
  shows "str_replace (CC_HEAD @ SENTINEL @ [c] @ bits @ CC_MID @ ''{getters}'' @ CC_TAIL)
           ''{getters}'' new =
         CC_HEAD @ SENTINEL @ [c] @ bits @ CC_MID @ new @ CC_TAIL"
proof -
  let ?old = "''{getters}''"
  let ?rest = "CC_MID @ ?old @ CC_TAIL"
  have head: "replace_nonempty ?old new (CC_HEAD @ SENTINEL @ z) =
              CC_HEAD @ SENTINEL @ replace_nonempty ?old new z" for z
    by (simp add: CC_HEAD_def SENTINEL_def)
  have "\<not> prefix ?old (c # bits @ ?rest)"
  proof (cases bits)
    case Nil
    then show ?thesis by (simp add: CC_MID_def)
  next
    case (Cons b bs)
    with assms have "b \<noteq> CHR ''g''" by auto
    with Cons show ?thesis by simp
  qed
  then have version: "replace_nonempty ?old new (c # bits @ ?rest) =
                      c # replace_nonempty ?old new (bits @ ?rest)"
    by (rule replace_nonempty_no_prefix)
  from assms have "\<forall>x\<in>set bits. x \<noteq> hd ?old" by auto
  then have bits: "replace_nonempty ?old new (bits @ ?rest) = bits @ replace_nonempty ?old new ?rest"
    by (intro replace_skip) simp_all
  have tail: "replace_nonempty ?old new ?rest = CC_MID @ new @ CC_TAIL"
    by (simp add: CC_MID_def CC_TAIL_def)
  have "replace_nonempty ?old new (CC_HEAD @ SENTINEL @ c # bits @ ?rest) =
        CC_HEAD @ SENTINEL @ replace_nonempty ?old new (c # bits @ ?rest)"
    by (rule head)
  also have "\<dots> = CC_HEAD @ SENTINEL @ c # bits @ CC_MID @ new @ CC_TAIL"
    by (simp only: version bits tail)
  finally show ?thesis by (simp add: str_replace_def)
qed

lemma impl_replace:
  assumes "set bits \<subseteq> {CHR ''0'', CHR ''1''}"
  shows "str_replace
          (str_replace
            (str_replace
              (str_replace TEMPLATE_CC ''{sentinel}'' SENTINEL)
              ''{fuse_version}'' [c])
            ''{initial_config}'' bits)
          ''{getters}'' new =
         CC_HEAD @ SENTINEL @ [c] @ bits @ CC_MID @ new @ CC_TAIL"
  by (simp only: cc_step1 cc_step2 cc_step3 cc_step4 [OF assms])

lemma getitem_present: "map_of d k = Some v \<Longrightarrow> getitem d k = Inr v"
  by (simp add: getitem_def)

lemma getitem_absent: "k \<notin> set (keys d) \<Longrightarrow> getitem d k = Inl (KeyError k)"
  by (simp add: getitem_def keys_def map_of_eq_None_iff [THEN iffD2])

lemma delitem_present: "k \<in> set (keys d) \<Longrightarrow> delitem d k = Inr (filter (\<lambda>kv. fst kv \<noteq> k) d)"
  by (simp add: delitem_def keys_def)

lemma delitem_absent: "k \<notin> set (keys d) \<Longrightarrow> delitem d k = Inl (KeyError k)"
  by (simp add: delitem_def keys_def)

lemma key_has_value: "k \<in> set (keys d) \<Longrightarrow> \<exists>v. map_of d k = Some v"
  by (cases "map_of d k") (simp_all add: keys_def map_of_eq_None_iff)

lemma loop_body_present:
  "map_of d fuse = Some v \<Longrightarrow>
   loop_body d fuse st =
     Inr \<lparr> initial_config = initial_config st @ [bit_char v],
           getters_h = getters_h st @ getter_h_text (accessor_name fuse),
           getters_cc = getters_cc st @ getter_cc_text (accessor_name fuse) (index st + 1),
           index = index st + 1 \<rparr>"
  by (simp add: loop_body_def Let_def getitem_present getter_h_replace getter_cc_replace
        bit_char_def)

lemma loop_result:
  "set fuses \<subseteq> set (keys d) \<Longrightarrow>
   loop d fuses st =
     Inr \<lparr> initial_config = initial_config st @ map (\<lambda>fuse. bit_char (the (map_of d fuse))) fuses,
           getters_h = getters_h st @ concat (map (\<lambda>fuse. getter_h_text (accessor_name fuse)) fuses),
           getters_cc = getters_cc st @
             concat (map (\<lambda>(i, fuse). getter_cc_text (accessor_name fuse) i)
                      (enumerate (index st + 1) fuses)),
           index = index st + length fuses \<rparr>"
proof (induction fuses arbitrary: st)
  case Nil
  then show ?case by simp
next
  case (Cons fuse fuses)
  from Cons.prems obtain v where v: "map_of d fuse = Some v"
    using key_has_value [of fuse d] by auto
  from Cons.prems have rest: "set fuses \<subseteq> set (keys d)" by simp
  show ?case
    by (simp add: loop_body_present [OF v] Cons.IH [OF rest] v)
qed

lemma strip_both_ends:
  "\<not> is_space a \<Longrightarrow> \<not> is_space z \<Longrightarrow>
   str_strip (ws1 @ a # mid @ z # ws2) = a # mid @ [z]"
  if "\<forall>c\<in>set ws1. is_space c" "\<forall>c\<in>set ws2. is_space c"
proof -
  assume a: "\<not> is_space a" and z: "\<not> is_space z"
  from that(1) a have "dropWhile is_space (ws1 @ a # mid @ z # ws2) = a # mid @ z # ws2"
    by (simp add: dropWhile_append3)
  moreover from that(2) z have "dropWhile is_space (rev ws2 @ z # rev mid @ [a]) = z # rev mid @ [a]"
    by (simp add: dropWhile_append3)
  ultimately show ?thesis by (simp add: str_strip_def)
qed

lemma generate_prelude:
  assumes "map_of doc ''_version'' = Some ver" and "''_comment'' \<in> set (keys doc)"
  shows "generate doc = render ver (fuse_entries doc)"
proof -
  from assms(1) have v: "''_version'' \<in> set (keys doc)"
    by (auto simp: keys_def dest: map_of_SomeD intro: rev_image_eqI)
  from assms(2) have c: "''_comment'' \<in> set (keys (filter (\<lambda>kv. fst kv \<noteq> ''_version'') doc))"
    by (auto simp: keys_def)
  have d2: "delitem (filter (\<lambda>kv. fst kv \<noteq> ''_version'') doc) ''_comment'' = Inr (fuse_entries doc)"
    unfolding fuse_entries_def by (rule delitem_present [OF c])
  show ?thesis
    by (simp add: generate_def getitem_present [OF assms(1)] delitem_present [OF v] d2)
qed

lemma generate_ok:
  assumes "map_of doc ''_version'' = Some (JInt v)" and "''_comment'' \<in> set (keys doc)"
    and "0 \<le> v" and "v < 256"
  shows "generate doc = Inr (generated_header doc, generated_impl (char_of v) doc)"
proof -
  let ?d = "fuse_entries doc"
  have bits: "set (map (\<lambda>fuse. bit_char (the (map_of ?d fuse))) (keys ?d)) \<subseteq> {CHR ''0'', CHR ''1''}"
    by (auto simp: bit_char_def)
  show ?thesis
    using assms(3,4)
    by (simp add: generate_prelude [OF assms(1,2)] render_def loop_result initial_state_def
          header_replace impl_replace [OF bits] generated_header_def generated_impl_def wire_def)
qed

subsection \<open>Failures before the loop\<close>

lemma generate_missing_version:
  "''_version'' \<notin> set (keys doc) \<Longrightarrow> generate doc = Inl (KeyError ''_version'')"
  by (simp add: generate_def getitem_absent)

lemma generate_missing_comment:
  assumes "''_version'' \<in> set (keys doc)" and "''_comment'' \<notin> set (keys doc)"
  shows "generate doc = Inl (KeyError ''_comment'')"
proof -
  from assms(1) obtain ver where ver: "map_of doc ''_version'' = Some ver"
    using key_has_value by blast
  from assms(2) have "''_comment'' \<notin> set (keys (filter (\<lambda>kv. fst kv \<noteq> ''_version'') doc))"
    by (auto simp: keys_def)
  then show ?thesis
    by (simp add: generate_def getitem_present [OF ver] delitem_present [OF assms(1)]
          delitem_absent)
qed

subsection \<open>The generated texts in explicit form\<close>

lemma distinct_fuse_entries: "distinct (keys doc) \<Longrightarrow> distinct (keys (fuse_entries doc))"
  by (simp add: keys_def fuse_entries_def distinct_map_filter)

lemma lookup_all_keys:
  "distinct (map fst d) \<Longrightarrow> map (\<lambda>k. f (the (map_of d k))) (map fst d) = map (\<lambda>kv. f (snd kv)) d"
proof (induction d)
  case Nil
  then show ?case by simp
next
  case (Cons kv d)
  then have "\<forall>k\<in>set (map fst d). k \<noteq> fst kv" by (auto simp: rev_image_eqI)
  then have "map (\<lambda>k. f (the (map_of (kv # d) k))) (map fst d) =
             map (\<lambda>k. f (the (map_of d k))) (map fst d)"
    by (intro map_cong) (auto simp del: set_map)
  with Cons show ?case by (cases kv) simp
qed

lemma wire_entries:
  "distinct (keys doc) \<Longrightarrow>
   wire c doc = SENTINEL @ [c] @ map (\<lambda>kv. bit_char (snd kv)) (fuse_entries doc)"
  using lookup_all_keys [of "fuse_entries doc" bit_char] distinct_fuse_entries [of doc]
  by (simp add: wire_def keys_def)

lemma concat_ends:
  "xs \<noteq> [] \<Longrightarrow> \<forall>x\<in>set xs. \<exists>m. x = p @ m @ q \<Longrightarrow> \<exists>m. concat xs = p @ m @ q"
proof (induction xs)
  case Nil
  then show ?case by simp
next
  case (Cons x xs)
  from Cons.prems obtain m1 where x: "x = p @ m1 @ q" by auto
  show ?case
  proof (cases "xs = []")
    case True
    with x show ?thesis by auto
  next
    case False
    with Cons obtain m2 where "concat xs = p @ m2 @ q" by auto
    with x have "concat (x # xs) = p @ (m1 @ q @ p @ m2) @ q" by simp
    then show ?thesis by blast
  qed
qed


lemma strip_getters_cc:
  "str_strip (concat (map (\<lambda>(i, name). getter_cc_text name i) xs)) =
   tl (butlast (concat (map (\<lambda>(i, name). getter_cc_text name i) xs)))"
proof (cases "xs = []")
  case True
  then show ?thesis by (simp add: str_strip_def)
next
  case False
  let ?blocks = "map (\<lambda>(i, name). getter_cc_text name i) xs"
  have "\<forall>x\<in>set ?blocks. \<exists>m. x = ''\<newline>_'' @ m @ ''}\<newline>''"
    by (auto simp: getter_cc_text_def)
  with False obtain m where m: "concat ?blocks = ''\<newline>_'' @ m @ ''}\<newline>''"
    using concat_ends [of ?blocks "''\<newline>_''" "''}\<newline>''"] by auto
  have "str_strip (''\<newline>'' @ CHR ''_'' # m @ CHR ''}'' # ''\<newline>'') = CHR ''_'' # m @ ''}''"
    by (rule strip_both_ends) (simp_all add: is_space_def)
  with m show ?thesis by (simp add: butlast_append)
qed

lemma map_enumerate_nth:
  "map f (enumerate n xs) = map (\<lambda>i. f (n + i, xs ! i)) [0..<length xs]"
  by (rule nth_equalityI) (simp_all add: nth_enumerate_eq)

lemma write_file_ok:
  assumes "can_write env path text"
  shows "\<exists>bs. encode (codec env) text = Inr bs \<and> write_file env path text fs = (None, fs(path \<mapsto> bs))"
  using assms
  by (auto simp: can_write_def write_file_def open_w_def f_write_def split: sum.splits option.splits)

lemma main_ok:
  assumes "generate doc = Inr (header, impl)" and "2 < length argv"
    and "can_write env (argv ! 1) header" and "can_write env (argv ! 2) impl"
  shows "\<exists>hb ib. encode (codec env) header = Inr hb \<and> encode (codec env) impl = Inr ib \<and>
           main env argv doc fs = (None, fs(argv ! 1 \<mapsto> hb, argv ! 2 \<mapsto> ib))"
proof -
  from write_file_ok [OF assms(3)] obtain hb where
    hb: "encode (codec env) header = Inr hb"
    "write_file env (argv ! 1) header fs = (None, fs(argv ! 1 \<mapsto> hb))"
    by blast
  from write_file_ok [OF assms(4)] obtain ib where
    ib: "encode (codec env) impl = Inr ib"
    "write_file env (argv ! 2) impl (fs(argv ! 1 \<mapsto> hb)) = (None, fs(argv ! 1 \<mapsto> hb, argv ! 2 \<mapsto> ib))"
    by blast
  from assms(1,2) hb ib show ?thesis
    by (simp add: main_def argv_at_def)
qed

lemma example_schema_valid:
  "map_of example_schema ''_version'' = Some (JInt 3)"
  "''_comment'' \<in> set (keys example_schema)"
  "(0 :: int) \<le> 3" "(3 :: int) < 256"
  "distinct (keys example_schema)"
  by (simp_all add: example_schema_def keys_def)

subsection \<open>Running twice, and reading the literal back\<close>

lemma write_file_again:
  "write_file env path text (snd (write_file env path text fs)) = write_file env path text fs"
  by (auto simp: write_file_def open_w_def f_write_def split: sum.splits option.splits)

lemma write_file_outcome:
  "fst (write_file env path text fs') = fst (write_file env path text fs)"
  by (auto simp: write_file_def open_w_def f_write_def split: sum.splits option.splits)

lemma main_idempotent:
  "main env argv doc (snd (main env argv doc fs)) = main env argv doc fs"
  by (auto simp: main_def write_file_def open_w_def f_write_def argv_at_def
        split: sum.splits prod.splits option.splits if_splits)

lemma c_string_literal_plain:
  "\<forall>c\<in>set w. c \<noteq> CHR 0x22 \<and> c \<noteq> CHR 0x0A \<and> c \<noteq> CHR 0x0D \<and> c \<noteq> CHR 0x5C \<Longrightarrow>
   c_string_literal (w @ CHR 0x22 # rest) = Some w"
  by (induction w) simp_all

lemma char_of_eq_iff:
  "0 \<le> v \<Longrightarrow> v < 256 \<Longrightarrow> 0 \<le> n \<Longrightarrow> n < 256 \<Longrightarrow> char_of (v :: int) = char_of (n :: int) \<longleftrightarrow> v = n"
proof
  assume "0 \<le> v" "v < 256" "0 \<le> n" "n < 256" and eq: "char_of v = char_of n"
  from eq have "(of_char (char_of v) :: int) = of_char (char_of n)" by simp
  with \<open>0 \<le> v\<close> \<open>v < 256\<close> \<open>0 \<le> n\<close> \<open>n < 256\<close> show "v = n" by simp
qed simp

lemma special_chars:
  "CHR 0x22 = char_of (34 :: int)" "CHR 0x0A = char_of (10 :: int)"
  "CHR 0x0D = char_of (13 :: int)" "CHR 0x5C = char_of (92 :: int)"
  by code_simp+

lemma wire_plain:
  fixes v :: int
  assumes "0 \<le> v" and "v < 256" and "v \<noteq> 10" and "v \<noteq> 13" and "v \<noteq> 34" and "v \<noteq> 92"
  shows "\<forall>c\<in>set (wire (char_of v) doc).
           c \<noteq> CHR 0x22 \<and> c \<noteq> CHR 0x0A \<and> c \<noteq> CHR 0x0D \<and> c \<noteq> CHR 0x5C"
proof -
  have sentinel: "\<forall>c\<in>set SENTINEL. c \<noteq> CHR 0x22 \<and> c \<noteq> CHR 0x0A \<and> c \<noteq> CHR 0x0D \<and> c \<noteq> CHR 0x5C"
    by (simp add: SENTINEL_def)
  have bit: "bit_char x \<noteq> CHR 0x22 \<and> bit_char x \<noteq> CHR 0x0A \<and> bit_char x \<noteq> CHR 0x0D \<and>
             bit_char x \<noteq> CHR 0x5C" for x
    by (simp add: bit_char_def)
  from assms have version: "char_of v \<noteq> CHR 0x22 \<and> char_of v \<noteq> CHR 0x0A \<and>
      char_of v \<noteq> CHR 0x0D \<and> char_of v \<noteq> CHR 0x5C"
    by (simp add: special_chars char_of_eq_iff)
  from sentinel bit version show ?thesis
    unfolding wire_def by auto
qed

subsection \<open>The value of the comment, and the title case of a word\<close>

lemma generate_ignores_comment:
  "generate (map (\<lambda>kv. if fst kv = ''_comment'' then (''_comment'', c) else kv) doc) = generate doc"
proof -
  let ?doc' = "map (\<lambda>kv. if fst kv = ''_comment'' then (''_comment'', c) else kv) doc"
  have version: "map_of ?doc' ''_version'' = map_of doc ''_version''"
    by (induction doc) auto
  have keys: "keys ?doc' = keys doc"
    unfolding keys_def by (induction doc) auto
  have fuses: "fuse_entries ?doc' = fuse_entries doc"
    unfolding fuse_entries_def by (induction doc) auto
  show ?thesis
  proof (cases "''_version'' \<in> set (keys doc)")
    case False
    then show ?thesis
      by (simp add: generate_missing_version keys)
  next
    case True
    then obtain ver where ver: "map_of doc ''_version'' = Some ver"
      using key_has_value by blast
    show ?thesis
    proof (cases "''_comment'' \<in> set (keys doc)")
      case False
      with True show ?thesis
        by (simp add: generate_missing_comment keys)
    next
      case True
      with ver version keys have "generate ?doc' = render ver (fuse_entries ?doc')"
        by (intro generate_prelude) simp_all
      with generate_prelude [OF ver True] show ?thesis
        by (simp add: fuses)
    qed
  qed
qed

lemma title_from_cased: "\<forall>c\<in>set w. is_cased c \<Longrightarrow> title_from True w = map to_lower w"
  by (induction w) simp_all

lemma str_title_word:
  "is_cased c \<Longrightarrow> \<forall>x\<in>set w. is_cased x \<Longrightarrow> str_title (c # w) = to_upper c # map to_lower w"
  by (simp add: str_title_def title_from_cased)

subsection \<open>Encodings and the environment of the examples\<close>

lemma utf8_environment_fields:
  "read_only utf8_environment = {}" "codec utf8_environment = utf8_codec"
  "limit utf8_environment = Map.empty"
  by (simp_all add: utf8_environment_def)

lemma encode_ascii:
  "ascii_transparent cd \<Longrightarrow> \<forall>c\<in>set s. is_ascii c \<and> c \<noteq> CHR 0x0A \<Longrightarrow> encode cd s = Inr s"
  by (induction s) (auto simp: ascii_transparent_def is_ascii_def)

lemma encode_append:
  "encode cd (xs @ ys) =
     (case encode cd xs of Inl e \<Rightarrow> Inl e
      | Inr a \<Rightarrow> (case encode cd ys of Inl e \<Rightarrow> Inl e | Inr b \<Rightarrow> Inr (a @ b)))"
  by (induction xs) (auto split: option.splits sum.splits)

lemma ascii_transparent_utf8: "ascii_transparent utf8_codec"
  by (simp add: ascii_transparent_def utf8_codec_def)

lemma example_can_write:
  "can_write utf8_environment ''fuses.h'' (generated_header example_schema)"
  "can_write utf8_environment ''fuses.cc'' (generated_impl (char_of (3 :: int)) example_schema)"
  by code_simp+

subsection \<open>Title case against the words of the specification\<close>







subsection \<open>The bytes of the wire\<close>

lemma encode_append_Inr:
  "encode cd (xs @ ys) = Inr file \<Longrightarrow>
   \<exists>a b. encode cd xs = Inr a \<and> encode cd ys = Inr b \<and> file = a @ b"
  by (simp add: encode_append split: sum.splits)

lemma char_of_small:
  fixes v :: int
  assumes "0 \<le> v" and "v < 128"
  shows "(of_char (char_of v) :: nat) < 128"
proof -
  from assms have "int (of_char (char_of v)) = v"
    by (simp add: of_nat_of_char)
  with assms(2) show ?thesis by linarith
qed

lemma wire_ascii:
  fixes v :: int
  assumes "0 \<le> v" and "v < 128" and "v \<noteq> 10"
  shows "\<forall>c\<in>set (wire (char_of v) doc). is_ascii c \<and> c \<noteq> CHR 0x0A"
proof -
  have sentinel: "\<forall>c\<in>set SENTINEL. is_ascii c \<and> c \<noteq> CHR 0x0A"
    by (simp add: SENTINEL_def is_ascii_def)
  have bit: "is_ascii (bit_char x) \<and> bit_char x \<noteq> CHR 0x0A" for x
    by (simp add: bit_char_def is_ascii_def)
  from assms have "char_of v \<noteq> CHR 0x0A"
    by (simp add: special_chars char_of_eq_iff)
  with char_of_small [OF assms(1,2)] have version: "is_ascii (char_of v) \<and> char_of v \<noteq> CHR 0x0A"
    by (simp add: is_ascii_def)
  from sentinel bit version show ?thesis
    unfolding wire_def by auto
qed

section \<open>The claims\<close>

subsection \<open>C4: the length of the sentinel\<close>

text \<open>
  Claim C4 says that the sentinel at the start of the wire is a fixed string of 33
  characters. The constant of the script has 32 characters, so the claim as stated
  fails.
\<close>

theorem sentinel_length_not_33: "length SENTINEL \<noteq> 33"
  by (simp add: SENTINEL_def)

text \<open>
  Claim C4, amended: the sentinel at the start of the wire is a fixed string of 32
  characters.
\<close>

theorem sentinel_length: "length SENTINEL = 32"
  by (simp add: SENTINEL_def)

subsection \<open>C10: the metadata keys are mandatory\<close>

text \<open>
  Claim C10: a document without the key \<^verbatim>\<open>_comment\<close>, or without the key
  \<^verbatim>\<open>_version\<close>, ends the script with a \<^verbatim>\<open>KeyError\<close> for the first missing key, before
  the version is checked and with the file system untouched, whatever the arguments and
  the permissions are. So the key \<^verbatim>\<open>_comment\<close> has to be there, although its value
  changes nothing (\<open>generate_ignores_comment\<close>).
\<close>

theorem missing_metadata_key:
  assumes "''_version'' \<notin> set (keys doc) \<or> ''_comment'' \<notin> set (keys doc)"
  shows "main env argv doc fs =
           (Some (KeyError (if ''_version'' \<in> set (keys doc) then ''_comment'' else ''_version'')), fs)"
  using assms
  by (cases "''_version'' \<in> set (keys doc)")
     (simp_all add: main_def generate_missing_version generate_missing_comment)

text \<open>
  A document with a version that is too large and no \<^verbatim>\<open>_comment\<close>: the
  \<^verbatim>\<open>KeyError\<close> comes first.
\<close>

theorem missing_metadata_key_witness:
  "main utf8_environment [''build.py'', ''fuses.h'', ''fuses.cc'']
     [(''_version'', JInt 300), (''enable_widget'', JBool True)] Map.empty =
   (Some (KeyError ''_comment''), Map.empty)"
  using missing_metadata_key
    [of "[(''_version'', JInt 300), (''enable_widget'', JBool True)]" utf8_environment
        "[''build.py'', ''fuses.h'', ''fuses.cc'']" Map.empty]
  by (simp add: keys_def)

subsection \<open>C3: a version that does not fit one byte\<close>

text \<open>
  Claim C3: when the version of the document is 256 or more, the script ends with the
  exception \<^verbatim>\<open>Exception("Fuse version can not exceed one byte in size")\<close>, which is
  not caught, and the file system is as it was: no output file is written. The document
  has its \<^verbatim>\<open>_comment\<close>, as every schema has.
\<close>

theorem version_overflow:
  assumes "map_of doc ''_version'' = Some (JInt v)" and "''_comment'' \<in> set (keys doc)"
    and "256 \<le> v"
  shows "main env argv doc fs =
           (Some (Exception ''Fuse version can not exceed one byte in size''), fs)"
  using assms(3) by (simp add: main_def generate_prelude [OF assms(1,2)] render_def)

text \<open>The smallest such version, 256.\<close>

theorem version_overflow_witness:
  "main utf8_environment [''build.py'', ''fuses.h'', ''fuses.cc'']
     [(''_version'', JInt 256), (''_comment'', JStr ''x''), (''enable_widget'', JBool True)]
     Map.empty =
   (Some (Exception ''Fuse version can not exceed one byte in size''), Map.empty)"
  using version_overflow
    [of "[(''_version'', JInt 256), (''_comment'', JStr ''x''), (''enable_widget'', JBool True)]"
        256 utf8_environment "[''build.py'', ''fuses.h'', ''fuses.cc'']" Map.empty]
  by (simp add: keys_def)

subsection \<open>C1: the wire string\<close>

text \<open>
  Claim C1: for a valid schema (an integer version from 0 to 255, in a document that has
  its \<^verbatim>\<open>_comment\<close> and, being a dictionary, no key twice) the string literal that
  initialises \<^verbatim>\<open>kFuseWire\<close> in the definitions file is the sentinel, then the one
  character \<^verbatim>\<open>chr(version)\<close>, then one character per fuse in the order of the document,
  \<^verbatim>\<open>1\<close> when the default of the fuse is true and \<^verbatim>\<open>0\<close> when it is false. The text
  before it is \<open>CC_HEAD\<close>, which ends with the opening quote, and the text after it is
  \<open>CC_MID\<close>, which starts with the closing quote.
\<close>

theorem wire_string:
  assumes "map_of doc ''_version'' = Some (JInt v)" and "''_comment'' \<in> set (keys doc)"
    and "0 \<le> v" and "v < 256" and "distinct (keys doc)"
  shows "\<exists>header getters.
           generate doc =
             Inr (header,
                  CC_HEAD @
                  (SENTINEL @ [char_of v] @
                   map (\<lambda>kv. if truthy (snd kv) then CHR ''1'' else CHR ''0'') (fuse_entries doc)) @
                  CC_MID @ getters @ CC_TAIL)"
proof -
  have "wire (char_of v) doc =
        SENTINEL @ [char_of v] @
        map (\<lambda>kv. if truthy (snd kv) then CHR ''1'' else CHR ''0'') (fuse_entries doc)"
    using wire_entries [OF assms(5)] by (simp add: bit_char_def)
  with generate_ok [OF assms(1-4)] show ?thesis
    by (auto simp: generated_impl_def)
qed

text \<open>The example schema: version 3, one fuse on and one fuse off.\<close>

theorem wire_string_witness:
  "\<exists>header getters.
     generate example_schema =
       Inr (header, CC_HEAD @ (SENTINEL @ [char_of (3 :: int)] @ ''10'') @ CC_MID @ getters @ CC_TAIL)"
  using wire_string [of example_schema 3]
  by (simp add: example_schema_def keys_def fuse_entries_def)

subsection \<open>C2: the offset each accessor reads\<close>

text \<open>
  Claim C2: in the definitions file the accessor of the fuse at position \<open>j\<close> of the
  document (counted from 0) is the function that returns
  \<^verbatim>\<open>kFuseWire[n] == '1'\<close> where \<open>n\<close> is the decimal text of
  \<open>length SENTINEL + 1 + j\<close>; and the character of the wire at that offset is the one
  that encodes the default of that fuse. The \<^verbatim>\<open>strip\<close> of the script removes the first
  and the last line break of the accessors and nothing else.
\<close>

theorem accessor_offsets:
  assumes "map_of doc ''_version'' = Some (JInt v)" and "''_comment'' \<in> set (keys doc)"
    and "0 \<le> v" and "v < 256" and "distinct (keys doc)"
    and "i < length (fuse_entries doc)"
  shows \<open>(\<exists>header.
            generate doc =
              Inr (header,
                   CC_HEAD @ wire (char_of v) doc @ CC_MID @
                   tl (butlast (concat (map
                     (\<lambda>j. ''\<newline>__attribute__((__visibility__("default"))) bool Is'' @
                          accessor_name (fst (fuse_entries doc ! j)) @
                          ''Enabled() {\<newline>  return kFuseWire['' @
                          str_nat (length SENTINEL + 1 + j) @
                          ''] == '1';\<newline>}\<newline>'')
                     [0..<length (fuse_entries doc)]))) @
                   CC_TAIL)) \<and>
         wire (char_of v) doc ! (length SENTINEL + 1 + i) =
           (if truthy (snd (fuse_entries doc ! i)) then CHR ''1'' else CHR ''0'')\<close>
proof -
  have index_form: "map (\<lambda>(i, fuse). getter_cc_text (accessor_name fuse) i)
          (enumerate (length SENTINEL + 1) (keys (fuse_entries doc))) =
        map (\<lambda>j. getter_cc_text (accessor_name (fst (fuse_entries doc ! j))) (length SENTINEL + 1 + j))
          [0..<length (fuse_entries doc)]"
    by (simp add: map_enumerate_nth keys_def)
  have strip: "str_strip (concat (map (\<lambda>(i, fuse). getter_cc_text (accessor_name fuse) i) xs)) =
        tl (butlast (concat (map (\<lambda>(i, fuse). getter_cc_text (accessor_name fuse) i) xs)))" for xs
    using strip_getters_cc [of "map (\<lambda>(i, fuse). (i, accessor_name fuse)) xs"]
    by (simp add: comp_def case_prod_unfold)
  have "generated_impl (char_of v) doc =
      CC_HEAD @ wire (char_of v) doc @ CC_MID @
      tl (butlast (concat (map
        (\<lambda>j. getter_cc_text (accessor_name (fst (fuse_entries doc ! j))) (length SENTINEL + 1 + j))
        [0..<length (fuse_entries doc)]))) @
      CC_TAIL"
    by (simp only: generated_impl_def strip) (simp only: index_form)
  with generate_ok [OF assms(1-4)] have first: \<open>\<exists>header.
            generate doc =
              Inr (header,
                   CC_HEAD @ wire (char_of v) doc @ CC_MID @
                   tl (butlast (concat (map
                     (\<lambda>j. ''\<newline>__attribute__((__visibility__("default"))) bool Is'' @
                          accessor_name (fst (fuse_entries doc ! j)) @
                          ''Enabled() {\<newline>  return kFuseWire['' @
                          str_nat (length SENTINEL + 1 + j) @
                          ''] == '1';\<newline>}\<newline>'')
                     [0..<length (fuse_entries doc)]))) @
                   CC_TAIL)\<close>
    by (simp add: getter_cc_text_def)
  from assms(6) have "wire (char_of v) doc ! (length SENTINEL + 1 + i) =
           (if truthy (snd (fuse_entries doc ! i)) then CHR ''1'' else CHR ''0'')"
    by (simp add: wire_entries [OF assms(5)] nth_append bit_char_def)
  with first show ?thesis by blast
qed

text \<open>The example schema: the second fuse is read at offset 34, where the wire holds 0.\<close>

theorem accessor_offsets_witness:
  \<open>(\<exists>header.
      generate example_schema =
        Inr (header,
             CC_HEAD @ wire (char_of (3 :: int)) example_schema @ CC_MID @
             tl (butlast
               (''\<newline>__attribute__((__visibility__("default"))) bool IsEnableWidgetEnabled() {\<newline>  return kFuseWire[33] == '1';\<newline>}\<newline>'' @
                ''\<newline>__attribute__((__visibility__("default"))) bool IsEnableGadgetEnabled() {\<newline>  return kFuseWire[34] == '1';\<newline>}\<newline>'')) @
             CC_TAIL)) \<and>
   wire (char_of (3 :: int)) example_schema ! 34 = CHR ''0''\<close>
proof -
  have position: "1 < length (fuse_entries example_schema)"
    by (simp add: fuse_entries_def example_schema_def)
  have blocks:
    \<open>tl (butlast (concat (map
        (\<lambda>j. ''\<newline>__attribute__((__visibility__("default"))) bool Is'' @
             accessor_name (fst (fuse_entries example_schema ! j)) @
             ''Enabled() {\<newline>  return kFuseWire['' @
             str_nat (length SENTINEL + 1 + j) @
             ''] == '1';\<newline>}\<newline>'')
        [0..<length (fuse_entries example_schema)]))) =
      tl (butlast
        (''\<newline>__attribute__((__visibility__("default"))) bool IsEnableWidgetEnabled() {\<newline>  return kFuseWire[33] == '1';\<newline>}\<newline>'' @
         ''\<newline>__attribute__((__visibility__("default"))) bool IsEnableGadgetEnabled() {\<newline>  return kFuseWire[34] == '1';\<newline>}\<newline>''))\<close>
    by code_simp
  have offset: "length SENTINEL + 1 + 1 = 34"
    by code_simp
  have bit: "(if truthy (snd (fuse_entries example_schema ! 1)) then CHR ''1'' else CHR ''0'') = CHR ''0''"
    by code_simp
  from accessor_offsets [OF example_schema_valid position]
  show ?thesis
    by (simp only: blocks offset bit)
qed

subsection \<open>C8: a schema without fuses\<close>

text \<open>
  Claim C8: when the document holds the keys \<^verbatim>\<open>_version\<close> and \<^verbatim>\<open>_comment\<close> only, the
  loop leaves its initial state (empty bit string, no accessor), the wire is the sentinel
  followed by \<^verbatim>\<open>chr(version)\<close>, and in an environment that lets the two texts be
  written to the two output paths the script ends without exception and has written
  both files.
\<close>

theorem no_fuses:
  assumes "map_of doc ''_version'' = Some (JInt v)" and "0 \<le> v" and "v < 256"
    and "set (keys doc) = {''_version'', ''_comment''}"
    and "2 < length argv"
    and "can_write env (argv ! 1) (H_HEAD @ H_TAIL)"
    and "can_write env (argv ! 2) (CC_HEAD @ (SENTINEL @ [char_of v]) @ CC_MID @ CC_TAIL)"
  shows "fuse_entries doc = [] \<and>
         loop (fuse_entries doc) (keys (fuse_entries doc)) initial_state = Inr initial_state \<and>
         generate doc = Inr (H_HEAD @ H_TAIL, CC_HEAD @ (SENTINEL @ [char_of v]) @ CC_MID @ CC_TAIL) \<and>
         (\<exists>hb ib.
            encode (codec env) (H_HEAD @ H_TAIL) = Inr hb \<and>
            encode (codec env) (CC_HEAD @ (SENTINEL @ [char_of v]) @ CC_MID @ CC_TAIL) = Inr ib \<and>
            main env argv doc fs = (None, fs(argv ! 1 \<mapsto> hb, argv ! 2 \<mapsto> ib)))"
proof -
  from assms(4) have "\<forall>kv\<in>set doc. fst kv = ''_version'' \<or> fst kv = ''_comment''"
    by (auto simp: keys_def)
  then have empty: "fuse_entries doc = []"
    by (auto simp: fuse_entries_def filter_empty_conv)
  from assms(4) have comment: "''_comment'' \<in> set (keys doc)" by simp
  have gen: "generate doc = Inr (H_HEAD @ H_TAIL, CC_HEAD @ (SENTINEL @ [char_of v]) @ CC_MID @ CC_TAIL)"
    using generate_ok [OF assms(1) comment assms(2,3)]
    by (simp add: generated_header_def generated_impl_def wire_def empty keys_def str_strip_def)
  from empty gen main_ok [OF gen assms(5-7), of fs] show ?thesis
    by (simp add: keys_def)
qed

text \<open>Version 7 and no fuse, into an empty file system.\<close>

theorem no_fuses_witness:
  "main utf8_environment [''build.py'', ''fuses.h'', ''fuses.cc'']
     [(''_version'', JInt 7), (''_comment'', JStr ''only metadata'')] Map.empty =
   (None, [''fuses.h'' \<mapsto> H_HEAD @ H_TAIL,
           ''fuses.cc'' \<mapsto> CC_HEAD @ (SENTINEL @ [char_of (7 :: int)]) @ CC_MID @ CC_TAIL])"
proof -
  let ?argv = "[''build.py'', ''fuses.h'', ''fuses.cc'']"
  let ?doc = "[(''_version'', JInt 7), (''_comment'', JStr ''only metadata'')]"
  let ?impl = "CC_HEAD @ (SENTINEL @ [char_of (7 :: int)]) @ CC_MID @ CC_TAIL"
  have header: "encode (codec utf8_environment) (H_HEAD @ H_TAIL) = Inr (H_HEAD @ H_TAIL)"
    by code_simp
  have impl: "encode (codec utf8_environment) ?impl = Inr ?impl"
    by code_simp
  have schema: "map_of ?doc ''_version'' = Some (JInt 7)" "(0 :: int) \<le> 7" "(7 :: int) < 256"
    "set (keys ?doc) = {''_version'', ''_comment''}" "2 < length ?argv"
    by (simp_all add: keys_def)
  have paths: "can_write utf8_environment (?argv ! 1) (H_HEAD @ H_TAIL)"
    "can_write utf8_environment (?argv ! 2) ?impl"
    by code_simp+
  from no_fuses [OF schema paths, of Map.empty] obtain hb ib where
    "encode (codec utf8_environment) (H_HEAD @ H_TAIL) = Inr hb"
    "encode (codec utf8_environment) ?impl = Inr ib"
    "main utf8_environment ?argv ?doc Map.empty = (None, [?argv ! 1 \<mapsto> hb, ?argv ! 2 \<mapsto> ib])"
    by blast
  with header impl show ?thesis by simp
qed

subsection \<open>C7: generating twice\<close>

text \<open>
  Claim C7: for a valid schema, in an environment that lets the two texts be written to
  the two output paths, running the script a second time, on the file system the first
  run left, ends the same way and leaves the file system as the first run left it; and
  what the two files hold after a run does not depend on what the file system held
  before: it is a function of the document.
\<close>

theorem regeneration_is_identical:
  assumes "map_of doc ''_version'' = Some (JInt v)" and "''_comment'' \<in> set (keys doc)"
    and "0 \<le> v" and "v < 256"
    and "2 < length argv"
    and "can_write env (argv ! 1) (generated_header doc)"
    and "can_write env (argv ! 2) (generated_impl (char_of v) doc)"
  shows "main env argv doc (snd (main env argv doc fs)) = main env argv doc fs \<and>
         fst (main env argv doc fs) = None \<and>
         snd (main env argv doc fs') (argv ! 1) = snd (main env argv doc fs) (argv ! 1) \<and>
         snd (main env argv doc fs') (argv ! 2) = snd (main env argv doc fs) (argv ! 2) \<and>
         (\<exists>ib. encode (codec env) (generated_impl (char_of v) doc) = Inr ib \<and>
               snd (main env argv doc fs) (argv ! 2) = Some ib)"
  using main_idempotent [of env argv doc fs]
    main_ok [OF generate_ok [OF assms(1-4)] assms(5-7), of fs]
    main_ok [OF generate_ok [OF assms(1-4)] assms(5-7), of fs']
  by auto

text \<open>The example schema, once over a stale declarations file and once from nothing.\<close>

theorem regeneration_is_identical_witness:
  "main utf8_environment [''build.py'', ''fuses.h'', ''fuses.cc''] example_schema
     (snd (main utf8_environment [''build.py'', ''fuses.h'', ''fuses.cc''] example_schema
            [''fuses.h'' \<mapsto> ''stale'']))
   = main utf8_environment [''build.py'', ''fuses.h'', ''fuses.cc''] example_schema
       [''fuses.h'' \<mapsto> ''stale''] \<and>
   snd (main utf8_environment [''build.py'', ''fuses.h'', ''fuses.cc''] example_schema Map.empty)
     ''fuses.h''
   = snd (main utf8_environment [''build.py'', ''fuses.h'', ''fuses.cc''] example_schema
            [''fuses.h'' \<mapsto> ''stale'']) ''fuses.h''"
  using regeneration_is_identical
    [OF example_schema_valid(1-4), of "[''build.py'', ''fuses.h'', ''fuses.cc'']"
       utf8_environment "[''fuses.h'' \<mapsto> ''stale'']" Map.empty]
    example_can_write
  by simp

subsection \<open>C6: the names of the accessors\<close>



subsection \<open>C9: both files or none\<close>

text \<open>
  Claim C9 says that no run leaves exactly one of the two files written, also when the
  second path cannot be written. The script opens and writes the declarations file
  before it looks at the second path: when the second path cannot be opened, the run
  ends with \<^verbatim>\<open>OSError\<close>, the declarations file is written and the definitions file
  is not.
\<close>

theorem partial_output_counterexample:
  "fst (main \<lparr> read_only = {''fuses.cc''}, codec = utf8_codec, limit = Map.empty \<rparr>
          [''build.py'', ''fuses.h'', ''fuses.cc''] example_schema Map.empty) =
     Some (OSError ''fuses.cc'') \<and>
   snd (main \<lparr> read_only = {''fuses.cc''}, codec = utf8_codec, limit = Map.empty \<rparr>
          [''build.py'', ''fuses.h'', ''fuses.cc''] example_schema Map.empty)
     ''fuses.h'' = Some (generated_header example_schema) \<and>
   snd (main \<lparr> read_only = {''fuses.cc''}, codec = utf8_codec, limit = Map.empty \<rparr>
          [''build.py'', ''fuses.h'', ''fuses.cc''] example_schema Map.empty)
     ''fuses.cc'' = None"
  by code_simp

text \<open>
  A failure after a file was opened can also leave that file emptied: with a version of
  200 and an ASCII locale the definitions text cannot be encoded, and the definitions
  file that was there before is left empty.
\<close>

lemma emptied_file_example:
  "fst (main \<lparr> read_only = {}, codec = ascii_codec, limit = Map.empty \<rparr>
          [''build.py'', ''fuses.h'', ''fuses.cc'']
          [(''_version'', JInt 200), (''_comment'', JStr ''x''), (''enable_widget'', JBool True)]
          [''fuses.cc'' \<mapsto> ''old'']) = Some UnicodeEncodeError \<and>
   snd (main \<lparr> read_only = {}, codec = ascii_codec, limit = Map.empty \<rparr>
          [''build.py'', ''fuses.h'', ''fuses.cc'']
          [(''_version'', JInt 200), (''_comment'', JStr ''x''), (''enable_widget'', JBool True)]
          [''fuses.cc'' \<mapsto> ''old'']) ''fuses.cc'' = Some []"
  by code_simp

text \<open>
  Claim C9, amended: a run that ends without exception has fully written both output
  files; a run that fails before it opens the declarations file (an exception while the
  texts are generated, a missing first argument, a first path that cannot be opened)
  has written neither and leaves the file system untouched. A run that fails after the
  declarations file was opened is not covered.
\<close>

theorem both_or_neither:
  "(fst (main env argv doc fs) = None \<longrightarrow>
      (\<exists>header impl hb ib.
         generate doc = Inr (header, impl) \<and>
         encode (codec env) header = Inr hb \<and> encode (codec env) impl = Inr ib \<and>
         main env argv doc fs = (None, fs(argv ! 1 \<mapsto> hb, argv ! 2 \<mapsto> ib)))) \<and>
   ((\<exists>e. generate doc = Inl e) \<or> length argv \<le> 1 \<or> argv ! 1 \<in> read_only env \<longrightarrow>
      (\<exists>e. main env argv doc fs = (Some e, fs)))"
  by (auto simp: main_def write_file_def open_w_def f_write_def argv_at_def
        split: sum.splits prod.splits option.splits if_splits)

text \<open>
  The example schema written to two fresh paths, and the same run with a declarations
  path that cannot be opened.
\<close>

theorem both_or_neither_witness:
  "(\<exists>hb ib. main utf8_environment [''build.py'', ''fuses.h'', ''fuses.cc''] example_schema Map.empty =
             (None, [''fuses.h'' \<mapsto> hb, ''fuses.cc'' \<mapsto> ib])) \<and>
   (\<exists>e. main \<lparr> read_only = {''fuses.h''}, codec = utf8_codec, limit = Map.empty \<rparr>
            [''build.py'', ''fuses.h'', ''fuses.cc''] example_schema [''fuses.h'' \<mapsto> ''old''] =
          (Some e, [''fuses.h'' \<mapsto> ''old'']))"
proof -
  let ?argv = "[''build.py'', ''fuses.h'', ''fuses.cc'']"
  let ?locked = "\<lparr> read_only = {''fuses.h''}, codec = utf8_codec, limit = Map.empty \<rparr>"
  have "fst (main utf8_environment ?argv example_schema Map.empty) = None"
    by code_simp
  with both_or_neither [of utf8_environment ?argv example_schema Map.empty]
  obtain header impl hb ib where
    "main utf8_environment ?argv example_schema Map.empty =
       (None, [?argv ! 1 \<mapsto> hb, ?argv ! 2 \<mapsto> ib])"
    by blast
  then have "main utf8_environment ?argv example_schema Map.empty =
               (None, [''fuses.h'' \<mapsto> hb, ''fuses.cc'' \<mapsto> ib])"
    by simp
  then have written: "\<exists>hb ib. main utf8_environment ?argv example_schema Map.empty =
                  (None, [''fuses.h'' \<mapsto> hb, ''fuses.cc'' \<mapsto> ib])"
    by blast
  have "?argv ! 1 \<in> read_only ?locked"
    by simp
  with both_or_neither [of ?locked ?argv example_schema "[''fuses.h'' \<mapsto> ''old'']"]
  have "\<exists>e. main ?locked ?argv example_schema [''fuses.h'' \<mapsto> ''old''] =
          (Some e, [''fuses.h'' \<mapsto> ''old''])"
    by blast
  with written show ?thesis by blast
qed

end
